theory Spec2Isabelle
  imports Complex_Main "HOL-Library.AList"
begin

section \<open>Conventions of the embedding\<close>

text \<open>
  The Python sources \<^verbatim>\<open>astrology/transits.py\<close> and \<^verbatim>\<open>astrology/houses.py\<close> are
  embedded as HOL functions.

  \<^item> A Python \<^verbatim>\<open>float\<close> is a \<^typ>\<open>real\<close>: rounding, infinities and NaN are not
    modelled, except for the one infinity the source writes itself
    (\<^verbatim>\<open>float('inf')\<close>, see \<open>pyfloat\<close> below).
  \<^item> A dictionary whose iteration order matters is an association list; Python
    keeps the keys of a dictionary distinct and iterates in insertion order.
  \<^item> Every exception the embedded code can raise is a value of \<open>error\<close>, and a
    function that can raise returns \<open>error + 'a\<close> with \<open>Inl\<close> for the exception.
\<close>

datatype error = KeyError string | IndexError | OverflowError | SwissephError

definition bind_err :: "error + 'a \<Rightarrow> ('a \<Rightarrow> error + 'b) \<Rightarrow> error + 'b" where
  "bind_err m f = (case m of Inl e \<Rightarrow> Inl e | Inr x \<Rightarrow> f x)"

text \<open>\<^verbatim>\<open>d[key]\<close> on a dictionary: the value, or \<^verbatim>\<open>KeyError\<close>.\<close>

definition dict_get :: "(string \<times> 'v) list \<Rightarrow> string \<Rightarrow> error + 'v" where
  "dict_get d k = (case map_of d k of None \<Rightarrow> Inl (KeyError k) | Some v \<Rightarrow> Inr v)"

text \<open>
  \<^verbatim>\<open>xs[i]\<close> on a list or tuple: a negative index counts from the end, and an index
  outside \<open>-len .. len - 1\<close> raises \<^verbatim>\<open>IndexError\<close>.
\<close>

definition list_get :: "'a list \<Rightarrow> int \<Rightarrow> error + 'a" where
  "list_get xs i =
     (if 0 \<le> i \<and> i < int (length xs) then Inr (xs ! nat i)
      else if i < 0 \<and> - int (length xs) \<le> i then Inr (xs ! nat (int (length xs) + i))
      else Inl IndexError)"

text \<open>\<^verbatim>\<open>int(x)\<close> on a float truncates toward zero.\<close>

definition py_int :: "real \<Rightarrow> int" where
  "py_int x = (if 0 \<le> x then \<lfloor>x\<rfloor> else \<lceil>x\<rceil>)"

text \<open>
  \<^verbatim>\<open>x % y\<close> on floats, for a positive divisor: the remainder has the sign of the
  divisor. (The source only divides by the constant 30.)
\<close>

definition py_fmod :: "real \<Rightarrow> real \<Rightarrow> real" where
  "py_fmod x y = x - y * of_int \<lfloor>x / y\<rfloor>"

section \<open>Angular geometry (houses.py, transits.py)\<close>

definition signs :: "string list" where
  "signs = [''Aries'', ''Taurus'', ''Gemini'', ''Cancer'',
            ''Leo'', ''Virgo'', ''Libra'', ''Scorpio'',
            ''Sagittarius'', ''Capricorn'', ''Aquarius'', ''Pisces'']"

text \<open>
  \<^verbatim>\<open>get_zodiac_sign(degree)\<close>: \<^verbatim>\<open>sign_num = int(degree / 30)\<close>,
  \<^verbatim>\<open>degree_in_sign = degree % 30\<close>, \<^verbatim>\<open>return signs[sign_num], degree_in_sign\<close>.
\<close>

definition get_zodiac_sign :: "real \<Rightarrow> error + (string \<times> real)" where
  "get_zodiac_sign degree =
     (let sign_num = py_int (degree / 30);
          degree_in_sign = py_fmod degree 30
      in bind_err (list_get signs sign_num) (\<lambda>sign. Inr (sign, degree_in_sign)))"

text \<open>
  The sign index as the specification words it: \<open>floor(longitude/30) mod 12\<close>.
  This definition follows the specification, not the source; it is what
  \<open>get_zodiac_sign\<close> is compared with.
\<close>

definition spec_sign_index :: "real \<Rightarrow> nat" where
  "spec_sign_index l = nat (\<lfloor>l / 30\<rfloor> mod 12)"

text \<open>\<^verbatim>\<open>calculate_aspect_orb(angle1, angle2, aspect_angle)\<close>.\<close>

definition calculate_aspect_orb :: "real \<Rightarrow> real \<Rightarrow> real \<Rightarrow> real" where
  "calculate_aspect_orb angle1 angle2 aspect_angle =
     (let diff = \<bar>angle1 - angle2\<bar>;
          orb = min diff (360 - diff)
      in \<bar>orb - aspect_angle\<bar>)"

section \<open>Positions, the aspect catalog and the matcher (transits.py)\<close>

text \<open>
  A position dictionary has the seven keys \<^verbatim>\<open>calculate_planetary_positions\<close>
  writes. \<^verbatim>\<open>calculate_houses_for_positions\<close> reads \<^verbatim>\<open>julian_day\<close> with
  \<^verbatim>\<open>pos.get\<close> and tolerates its absence, so that field is optional.
\<close>

record position =
  longitude :: real
  latitude :: real
  distance :: real
  longitude_speed :: real
  latitude_speed :: real
  distance_speed :: real
  julian_day :: "real option"

type_synonym positions = "(string \<times> position) list"

text \<open>
  An entry of \<^verbatim>\<open>ASPECTS\<close>: the keys \<^verbatim>\<open>'angle'\<close> and \<^verbatim>\<open>'orb'\<close> (the tolerance; the
  field is named \<open>allowed_orb\<close> here to keep it apart from the measured orb of a
  match).
\<close>

record aspect_data =
  angle :: real
  allowed_orb :: real

definition ASPECTS :: "(string \<times> aspect_data) list" where
  "ASPECTS =
     [(''conjunction'', \<lparr>angle = 0, allowed_orb = 8\<rparr>),
      (''opposition'', \<lparr>angle = 180, allowed_orb = 8\<rparr>),
      (''trine'', \<lparr>angle = 120, allowed_orb = 8\<rparr>),
      (''square'', \<lparr>angle = 90, allowed_orb = 8\<rparr>),
      (''sextile'', \<lparr>angle = 60, allowed_orb = 6\<rparr>),
      (''quincunx'', \<lparr>angle = 150, allowed_orb = 3\<rparr>),
      (''semisextile'', \<lparr>angle = 30, allowed_orb = 3\<rparr>),
      (''semisquare'', \<lparr>angle = 45, allowed_orb = 2\<rparr>),
      (''sesquisquare'', \<lparr>angle = 135, allowed_orb = 2\<rparr>)]"

text \<open>\<^verbatim>\<open>is_retrograde(planet_data)\<close>.\<close>

definition is_retrograde :: "position \<Rightarrow> bool" where
  "is_retrograde planet_data = (longitude_speed planet_data < 0)"

text \<open>The dictionary \<^verbatim>\<open>find_aspects\<close> appends for a match.\<close>

record aspect_match =
  planet1 :: string
  planet2 :: string
  aspect :: string
  orb :: real
  exact_angle :: real
  planet1_retrograde :: bool
  planet2_retrograde :: bool

text \<open>
  \<^verbatim>\<open>find_aspects\<close> is three nested \<^verbatim>\<open>for\<close> loops over \<^verbatim>\<open>positions1.items()\<close>,
  \<^verbatim>\<open>positions2.items()\<close> and \<^verbatim>\<open>ASPECTS.items()\<close>, appending to the list
  \<^verbatim>\<open>aspects\<close>. Each loop is a recursion over the remaining items that threads
  the list through. The innermost body first \<^verbatim>\<open>continue\<close>s when \<^verbatim>\<open>max_orb\<close> is
  given and exceeded, then appends when the orb is within the catalog tolerance.
\<close>

fun find_aspects_catalog_loop ::
  "string \<Rightarrow> position \<Rightarrow> string \<Rightarrow> position \<Rightarrow> real option \<Rightarrow>
   (string \<times> aspect_data) list \<Rightarrow> aspect_match list \<Rightarrow> aspect_match list" where
  "find_aspects_catalog_loop p1 pos1 p2 pos2 max_orb [] aspects = aspects"
| "find_aspects_catalog_loop p1 pos1 p2 pos2 max_orb ((aspect_name, data) # rest) aspects =
     (let orb = calculate_aspect_orb (longitude pos1) (longitude pos2) (angle data)
      in if (case max_orb of None \<Rightarrow> False | Some m \<Rightarrow> orb > m)
         then find_aspects_catalog_loop p1 pos1 p2 pos2 max_orb rest aspects
         else if orb \<le> allowed_orb data
         then find_aspects_catalog_loop p1 pos1 p2 pos2 max_orb rest
                (aspects @ [\<lparr>planet1 = p1, planet2 = p2, aspect = aspect_name, orb = orb,
                              exact_angle = angle data,
                              planet1_retrograde = is_retrograde pos1,
                              planet2_retrograde = is_retrograde pos2\<rparr>])
         else find_aspects_catalog_loop p1 pos1 p2 pos2 max_orb rest aspects)"

fun find_aspects_inner_loop ::
  "string \<Rightarrow> position \<Rightarrow> real option \<Rightarrow> positions \<Rightarrow> aspect_match list \<Rightarrow> aspect_match list" where
  "find_aspects_inner_loop p1 pos1 max_orb [] aspects = aspects"
| "find_aspects_inner_loop p1 pos1 max_orb ((p2, pos2) # rest) aspects =
     find_aspects_inner_loop p1 pos1 max_orb rest
       (find_aspects_catalog_loop p1 pos1 p2 pos2 max_orb ASPECTS aspects)"

fun find_aspects_outer_loop ::
  "real option \<Rightarrow> positions \<Rightarrow> positions \<Rightarrow> aspect_match list \<Rightarrow> aspect_match list" where
  "find_aspects_outer_loop max_orb [] positions2 aspects = aspects"
| "find_aspects_outer_loop max_orb ((p1, pos1) # rest) positions2 aspects =
     find_aspects_outer_loop max_orb rest positions2
       (find_aspects_inner_loop p1 pos1 max_orb positions2 aspects)"

definition find_aspects :: "positions \<Rightarrow> positions \<Rightarrow> real option \<Rightarrow> aspect_match list" where
  "find_aspects positions1 positions2 max_orb =
     find_aspects_outer_loop max_orb positions1 positions2 []"

text \<open>
  The matcher as the specification words it: the cross product of the first set,
  the second set and the catalog, in that nested order, filtered by
  \<open>orb \<le> aspect.orb\<close> and (\<open>max_orb\<close> absent or \<open>orb \<le> max_orb\<close>), one match per
  surviving triple, in the order of the product. These three definitions follow
  the specification, not the source; \<open>find_aspects\<close> is compared with them.
\<close>

definition qualifies :: "real option \<Rightarrow> position \<Rightarrow> position \<Rightarrow> aspect_data \<Rightarrow> bool" where
  "qualifies max_orb pos1 pos2 data =
     (calculate_aspect_orb (longitude pos1) (longitude pos2) (angle data) \<le> allowed_orb data \<and>
      (case max_orb of None \<Rightarrow> True
       | Some m \<Rightarrow> calculate_aspect_orb (longitude pos1) (longitude pos2) (angle data) \<le> m))"

definition match_of ::
  "(string \<times> position) \<times> (string \<times> position) \<times> (string \<times> aspect_data) \<Rightarrow> aspect_match" where
  "match_of t =
     (case t of ((p1, pos1), (p2, pos2), (aspect_name, data)) \<Rightarrow>
        \<lparr>planet1 = p1, planet2 = p2, aspect = aspect_name,
         orb = calculate_aspect_orb (longitude pos1) (longitude pos2) (angle data),
         exact_angle = angle data,
         planet1_retrograde = is_retrograde pos1,
         planet2_retrograde = is_retrograde pos2\<rparr>)"

definition spec_find_aspects :: "positions \<Rightarrow> positions \<Rightarrow> real option \<Rightarrow> aspect_match list" where
  "spec_find_aspects positions1 positions2 max_orb =
     map match_of
       (filter (\<lambda>t. case t of ((p1, pos1), (p2, pos2), (aspect_name, data)) \<Rightarrow>
                  qualifies max_orb pos1 pos2 data)
          (List.product positions1 (List.product positions2 ASPECTS)))"

section \<open>Civil datetimes (Python's \<^verbatim>\<open>datetime\<close> and \<^verbatim>\<open>timedelta\<close>)\<close>

text \<open>
  A naive \<^verbatim>\<open>datetime\<close> is represented by the number of microseconds since
  \<^verbatim>\<open>datetime.min\<close> (0001-01-01 00:00:00), an integer from 0 to \<open>datetime_max\<close>
  (9999-12-31 23:59:59.999999); a \<^verbatim>\<open>timedelta\<close> is a number of microseconds.
  Comparing two datetimes compares these numbers. Adding a timedelta adds them
  and raises \<^verbatim>\<open>OverflowError\<close> when the result is outside the range. The fields
  \<^verbatim>\<open>hour\<close> and \<^verbatim>\<open>minute\<close> are read off the number directly; \<^verbatim>\<open>year\<close>,
  \<^verbatim>\<open>month\<close> and \<^verbatim>\<open>day\<close> are those of the proleptic Gregorian ordinal, by the
  algorithm of the standard library.
\<close>

type_synonym datetime = int
type_synonym timedelta = int

definition datetime_max :: datetime where
  "datetime_max = 3652059 * 86400000000 - 1"

definition hours :: "int \<Rightarrow> timedelta" where
  "hours n = n * 3600000000"

definition minutes :: "int \<Rightarrow> timedelta" where
  "minutes n = n * 60000000"

definition datetime_add :: "datetime \<Rightarrow> timedelta \<Rightarrow> error + datetime" where
  "datetime_add t d =
     (if 0 \<le> t + d \<and> t + d \<le> datetime_max then Inr (t + d) else Inl OverflowError)"

definition dt_hour :: "datetime \<Rightarrow> int" where
  "dt_hour t = (t div 3600000000) mod 24"

definition dt_minute :: "datetime \<Rightarrow> int" where
  "dt_minute t = (t div 60000000) mod 60"

definition toordinal :: "datetime \<Rightarrow> int" where
  "toordinal t = t div 86400000000 + 1"

definition DAYS_IN_MONTH :: "int list" where
  "DAYS_IN_MONTH = [-1, 31, 28, 31, 30, 31, 30, 31, 31, 30, 31, 30, 31]"

definition DAYS_BEFORE_MONTH :: "int list" where
  "DAYS_BEFORE_MONTH = [-1, 0, 31, 59, 90, 120, 151, 181, 212, 243, 273, 304, 334]"

text \<open>The ordinal of a day (1 is 0001-01-01) to its year, month and day.\<close>

definition ord2ymd :: "int \<Rightarrow> int \<times> int \<times> int" where
  "ord2ymd ordinal =
     (let n0 = ordinal - 1;
          n400 = n0 div 146097; r400 = n0 mod 146097;
          n100 = r400 div 36524; r100 = r400 mod 36524;
          n4 = r100 div 1461; r4 = r100 mod 1461;
          n1 = r4 div 365; n = r4 mod 365;
          year = n400 * 400 + 1 + n100 * 100 + n4 * 4 + n1
      in if n1 = 4 \<or> n100 = 4 then (year - 1, 12, 31)
         else
           (let leapyear = (n1 = 3 \<and> (n4 \<noteq> 24 \<or> n100 = 3));
                month = (n + 50) div 32;
                preceding = DAYS_BEFORE_MONTH ! nat month
                              + (if month > 2 \<and> leapyear then 1 else 0)
            in if preceding > n
               then (year, month - 1,
                     n - (preceding - (DAYS_IN_MONTH ! nat (month - 1)
                                        + (if month - 1 = 2 \<and> leapyear then 1 else 0))) + 1)
               else (year, month, n - preceding + 1)))"

definition dt_year :: "datetime \<Rightarrow> int" where
  "dt_year t = fst (ord2ymd (toordinal t))"

definition dt_month :: "datetime \<Rightarrow> int" where
  "dt_month t = fst (snd (ord2ymd (toordinal t)))"

definition dt_day :: "datetime \<Rightarrow> int" where
  "dt_day t = snd (snd (ord2ymd (toordinal t)))"

section \<open>The Ephemeris Provider (the \<^verbatim>\<open>swisseph\<close> module)\<close>

text \<open>
  The three functions of \<^verbatim>\<open>swisseph\<close> the sources call are parameters of the
  model. Each may raise (\<open>Inl\<close>). \<^verbatim>\<open>swe.calc_ut\<close> returns the six numbers the
  source reads from \<^verbatim>\<open>result[0]\<close>; \<^verbatim>\<open>swe.houses\<close> returns the tuples \<^verbatim>\<open>cusps\<close>
  and \<^verbatim>\<open>ascmc\<close>, and is given the topocentric location last set by
  \<^verbatim>\<open>swe.set_topo\<close>, the Provider's process-wide state.
\<close>

record provider =
  swe_julday :: "int \<Rightarrow> int \<Rightarrow> int \<Rightarrow> real \<Rightarrow> error + real"
  swe_calc_ut :: "real \<Rightarrow> int \<Rightarrow> error + (real \<times> real \<times> real \<times> real \<times> real \<times> real)"
  swe_houses ::
    "(real \<times> real \<times> real) option \<Rightarrow> real \<Rightarrow> real \<Rightarrow> real \<Rightarrow> string \<Rightarrow>
     error + (real list \<times> real list)"

section \<open>Julian Day and planetary positions (houses.py)\<close>

text \<open>\<^verbatim>\<open>compute_julian_day(birth_datetime, timezone)\<close>.\<close>

definition compute_julian_day :: "provider \<Rightarrow> datetime \<Rightarrow> real \<Rightarrow> error + real" where
  "compute_julian_day swe birth_datetime timezone =
     (let utc_hour = real_of_int (dt_hour birth_datetime) - timezone
      in swe_julday swe (dt_year birth_datetime) (dt_month birth_datetime)
           (dt_day birth_datetime)
           (utc_hour + real_of_int (dt_minute birth_datetime) / 60))"

text \<open>The dictionary \<^verbatim>\<open>PLANETS\<close>: names to the body numbers of \<^verbatim>\<open>swisseph\<close>.\<close>

definition PLANETS :: "(string \<times> int) list" where
  "PLANETS =
     [(''Sun'', 0), (''Moon'', 1), (''Mercury'', 2), (''Venus'', 3), (''Mars'', 4),
      (''Jupiter'', 5), (''Saturn'', 6), (''Uranus'', 7), (''Neptune'', 8), (''Pluto'', 9)]"

text \<open>
  \<^verbatim>\<open>calculate_planetary_positions(julian_day)\<close>: the loop over \<^verbatim>\<open>PLANETS.items()\<close>
  that stores one position per name; the first failing Provider call ends it.
\<close>

fun positions_loop :: "provider \<Rightarrow> real \<Rightarrow> (string \<times> int) list \<Rightarrow> positions \<Rightarrow> error + positions" where
  "positions_loop swe jd [] positions = Inr positions"
| "positions_loop swe jd ((name, code) # rest) positions =
     (case swe_calc_ut swe jd code of
        Inl e \<Rightarrow> Inl e
      | Inr (lon, lat, dst, lon_speed, lat_speed, dst_speed) \<Rightarrow>
          positions_loop swe jd rest
            (AList.update name
               \<lparr>longitude = lon, latitude = lat, distance = dst,
                longitude_speed = lon_speed, latitude_speed = lat_speed,
                distance_speed = dst_speed, julian_day = Some jd\<rparr>
               positions))"

definition calculate_planetary_positions :: "provider \<Rightarrow> real \<Rightarrow> error + positions" where
  "calculate_planetary_positions swe jd = positions_loop swe jd PLANETS []"

section \<open>The exact-aspect time solver (transits.py)\<close>

text \<open>
  \<^verbatim>\<open>best_orb\<close> starts as \<^verbatim>\<open>float('inf')\<close>, the one value of the source that is
  no real number.
\<close>

datatype pyfloat = Float real | Inf

fun float_less :: "real \<Rightarrow> pyfloat \<Rightarrow> bool" where
  "float_less x Inf = True"
| "float_less x (Float y) = (x < y)"

text \<open>
  One sample of either loop of \<^verbatim>\<open>find_exact_aspect_time\<close>: the Julian Day of the
  instant, the transiting positions, and the orb of
  \<^verbatim>\<open>natal_positions[planet1]['longitude']\<close> against
  \<^verbatim>\<open>transit_positions[planet2]['longitude']\<close> for the angle of the aspect. (The
  parameters \<^verbatim>\<open>planet1\<close>, \<^verbatim>\<open>planet2\<close> are \<open>pl1\<close>, \<open>pl2\<close> here.)
\<close>

definition orb_at ::
  "provider \<Rightarrow> positions \<Rightarrow> string \<Rightarrow> string \<Rightarrow> aspect_data \<Rightarrow> real \<Rightarrow> datetime \<Rightarrow> error + real" where
  "orb_at swe natal_positions pl1 pl2 data timezone t =
     bind_err (compute_julian_day swe t timezone) (\<lambda>jd.
     bind_err (calculate_planetary_positions swe jd) (\<lambda>transit_positions.
     bind_err (dict_get natal_positions pl1) (\<lambda>natal.
     bind_err (dict_get transit_positions pl2) (\<lambda>transit.
       Inr (calculate_aspect_orb (longitude natal) (longitude transit) (angle data))))))"

text \<open>
  The inner \<^verbatim>\<open>while fine_start <= fine_end\<close> loop, with its state \<^verbatim>\<open>fine_start\<close>,
  \<^verbatim>\<open>best_time\<close>, \<^verbatim>\<open>best_orb\<close>; \<open>sample\<close> is the orb computation of the body.
\<close>

function fine_loop ::
  "(datetime \<Rightarrow> error + real) \<Rightarrow> datetime \<Rightarrow> datetime \<Rightarrow> datetime option \<Rightarrow> pyfloat \<Rightarrow>
   error + datetime option" where
  "fine_loop sample fine_end fine_start best_time best_orb =
     (if fine_start \<le> fine_end then
        (case sample fine_start of
           Inl e \<Rightarrow> Inl e
         | Inr orb' \<Rightarrow>
             (case datetime_add fine_start (minutes 1) of
                Inl e \<Rightarrow> Inl e
              | Inr next_start \<Rightarrow>
                  if float_less orb' best_orb
                  then fine_loop sample fine_end next_start (Some fine_start) (Float orb')
                  else fine_loop sample fine_end next_start best_time best_orb))
      else Inr best_time)"
  by pat_completeness auto
termination
  by (relation "measure (\<lambda>(sample, fine_end, fine_start, best_time, best_orb).
                  nat (fine_end - fine_start + 1))")
     (auto simp: datetime_add_def minutes_def split: if_splits)

declare fine_loop.simps [simp del]

text \<open>The body of \<^verbatim>\<open>if orb < 0.1\<close>: the fine window around \<^verbatim>\<open>current_time\<close>.\<close>

definition fine_search :: "(datetime \<Rightarrow> error + real) \<Rightarrow> datetime \<Rightarrow> error + datetime option" where
  "fine_search sample current_time =
     bind_err (datetime_add current_time (- hours 1)) (\<lambda>fine_start.
     bind_err (datetime_add current_time (hours 1)) (\<lambda>fine_end.
       fine_loop sample fine_end fine_start None Inf))"

text \<open>The outer \<^verbatim>\<open>while current_time <= end_time\<close> loop.\<close>

function coarse_loop ::
  "(datetime \<Rightarrow> error + real) \<Rightarrow> datetime \<Rightarrow> datetime \<Rightarrow> error + datetime option" where
  "coarse_loop sample end_time current_time =
     (if current_time \<le> end_time then
        (case sample current_time of
           Inl e \<Rightarrow> Inl e
         | Inr orb' \<Rightarrow>
             if orb' < 1 / 10 then fine_search sample current_time
             else
               (case datetime_add current_time (hours 1) of
                  Inl e \<Rightarrow> Inl e
                | Inr next_time \<Rightarrow> coarse_loop sample end_time next_time))
      else Inr None)"
  by pat_completeness auto
termination
  by (relation "measure (\<lambda>(sample, end_time, current_time). nat (end_time - current_time + 1))")
     (auto simp: datetime_add_def hours_def split: if_splits)

declare coarse_loop.simps [simp del]

text \<open>
  \<^verbatim>\<open>find_exact_aspect_time\<close>: \<^verbatim>\<open>ASPECTS[aspect_name]\<close> is looked up before the
  loop starts.
\<close>

definition find_exact_aspect_time ::
  "provider \<Rightarrow> positions \<Rightarrow> datetime \<Rightarrow> datetime \<Rightarrow> string \<Rightarrow> string \<Rightarrow> string \<Rightarrow> real \<Rightarrow>
   error + datetime option" where
  "find_exact_aspect_time swe natal_positions start_time end_time pl1 pl2 aspect_name timezone =
     bind_err (dict_get ASPECTS aspect_name) (\<lambda>data.
       coarse_loop (orb_at swe natal_positions pl1 pl2 data timezone) end_time start_time)"

section \<open>Houses (houses.py)\<close>

text \<open>
  What the house functions change outside their results: the location set by
  \<^verbatim>\<open>swe.set_topo\<close> and the lines written by \<^verbatim>\<open>print\<close>.
\<close>

record world =
  topo :: "(real \<times> real \<times> real) option"
  stdout :: "string list"

record house_data =
  ascendant :: real
  house_cusps :: "(string \<times> real) list"
  angles :: "(string \<times> real) list"

text \<open>
  The dictionary \<^verbatim>\<open>calculate_ascendant_and_houses\<close> builds from \<^verbatim>\<open>cusps[0]\<close> ..
  \<^verbatim>\<open>cusps[11]\<close> and \<^verbatim>\<open>ascmc[0]\<close> .. \<^verbatim>\<open>ascmc[3]\<close>; a shorter tuple makes one of the
  reads raise \<^verbatim>\<open>IndexError\<close>.
\<close>

definition house_data_of :: "real list \<Rightarrow> real list \<Rightarrow> error + house_data" where
  "house_data_of cusps ascmc =
     (if 12 \<le> length cusps \<and> 4 \<le> length ascmc then
        Inr \<lparr>ascendant = cusps ! 0,
             house_cusps =
               [(''house_1'', cusps ! 0), (''house_2'', cusps ! 1), (''house_3'', cusps ! 2),
                (''house_4'', cusps ! 3), (''house_5'', cusps ! 4), (''house_6'', cusps ! 5),
                (''house_7'', cusps ! 6), (''house_8'', cusps ! 7), (''house_9'', cusps ! 8),
                (''house_10'', cusps ! 9), (''house_11'', cusps ! 10),
                (''house_12'', cusps ! 11)],
             angles =
               [(''ascendant'', ascmc ! 0), (''midheaven'', ascmc ! 1),
                (''armc'', ascmc ! 2), (''vertex'', ascmc ! 3)]\<rparr>
      else Inl IndexError)"

definition calculate_ascendant_and_houses ::
  "provider \<Rightarrow> real \<Rightarrow> real \<Rightarrow> real \<Rightarrow> string \<Rightarrow> world \<Rightarrow> (error + house_data) \<times> world" where
  "calculate_ascendant_and_houses swe jd lat lon house_system w =
     (let w' = w\<lparr>topo := Some (lat, lon, 0)\<rparr>
      in (case swe_houses swe (topo w') jd lat lon house_system of
            Inl e \<Rightarrow> (Inl e, w')
          | Inr (cusps, ascmc) \<Rightarrow> (house_data_of cusps ascmc, w')))"

definition skip_warning :: "string \<Rightarrow> string" where
  "skip_warning name = ''Warning: No Julian day found for '' @ name @ '', skipping...''"

text \<open>
  \<^verbatim>\<open>calculate_houses_for_positions\<close>: the loop over \<^verbatim>\<open>positions.items()\<close> with the
  dictionary \<^verbatim>\<open>results\<close>. An entry without \<^verbatim>\<open>julian_day\<close> prints the warning and
  \<^verbatim>\<open>continue\<close>s; an exception of the house computation ends the loop.
\<close>

fun houses_loop ::
  "provider \<Rightarrow> real \<Rightarrow> real \<Rightarrow> string \<Rightarrow> positions \<Rightarrow> (string \<times> house_data) list \<Rightarrow> world \<Rightarrow>
   (error + (string \<times> house_data) list) \<times> world" where
  "houses_loop swe lat lon house_system [] results w = (Inr results, w)"
| "houses_loop swe lat lon house_system ((name, pos) # rest) results w =
     (case julian_day pos of
        None \<Rightarrow>
          houses_loop swe lat lon house_system rest results
            (w\<lparr>stdout := stdout w @ [skip_warning name]\<rparr>)
      | Some jd \<Rightarrow>
          (case calculate_ascendant_and_houses swe jd lat lon house_system w of
             (Inl e, w') \<Rightarrow> (Inl e, w')
           | (Inr data, w') \<Rightarrow>
               houses_loop swe lat lon house_system rest (AList.update name data results) w'))"

definition calculate_houses_for_positions ::
  "provider \<Rightarrow> positions \<Rightarrow> real \<Rightarrow> real \<Rightarrow> string \<Rightarrow> world \<Rightarrow>
   (error + (string \<times> house_data) list) \<times> world" where
  "calculate_houses_for_positions swe positions lat lon house_system w =
     houses_loop swe lat lon house_system positions [] w"

section \<open>Sample inputs\<close>

text \<open>
  Concrete inputs on which the theorems below are instantiated. \<open>at_longitude l\<close>
  is a position at ecliptic longitude \<open>l\<close>, moving forward one degree a day.
\<close>

definition at_longitude :: "real \<Rightarrow> position" where
  "at_longitude l =
     \<lparr>longitude = l, latitude = 0, distance = 1, longitude_speed = 1,
      latitude_speed = 0, distance_speed = 0, julian_day = None\<rparr>"

text \<open>
  A synthetic Provider: the Julian Day of a civil instant is its day of the month
  plus the fraction of the day, every body is at longitude \<open>g jd\<close> on day \<open>jd\<close>, and
  the houses are twelve equal ones.
\<close>

definition synthetic_sky :: "(real \<Rightarrow> real) \<Rightarrow> provider" where
  "synthetic_sky g =
     \<lparr>swe_julday = (\<lambda>y m d h. Inr (real_of_int d + h / 24)),
      swe_calc_ut = (\<lambda>jd code. Inr (g jd, 0, 1, 0, 0, 0)),
      swe_houses = (\<lambda>t jd lat lon house_system.
         Inr ([0, 30, 60, 90, 120, 150, 180, 210, 240, 270, 300, 330],
              [0, 270, 268, 180, 0, 0, 0, 0]))\<rparr>"

text \<open>
  The house record of the synthetic Provider, and a batch of three entries of
  which the second has no \<^verbatim>\<open>julian_day\<close>.
\<close>

definition equal_houses :: house_data where
  "equal_houses =
     \<lparr>ascendant = 0,
      house_cusps =
        [(''house_1'', 0), (''house_2'', 30), (''house_3'', 60), (''house_4'', 90),
         (''house_5'', 120), (''house_6'', 150), (''house_7'', 180), (''house_8'', 210),
         (''house_9'', 240), (''house_10'', 270), (''house_11'', 300), (''house_12'', 330)],
      angles = [(''ascendant'', 0), (''midheaven'', 270), (''armc'', 268), (''vertex'', 180)]\<rparr>"

definition three_entries :: positions where
  "three_entries =
     [(''Sun'', (at_longitude 10)\<lparr>julian_day := Some 1\<rparr>),
      (''Moon'', at_longitude 20),
      (''Mars'', (at_longitude 30)\<lparr>julian_day := Some 2\<rparr>)]"

(*THEOREMS*)
section \<open>The circular orb\<close>

text \<open>
  C9. \<open>calculate_aspect_orb\<close> is symmetric in its first two arguments: for all
  angles \<open>a\<close>, \<open>b\<close> and every target angle \<open>t\<close>, the orb of \<open>(a, b, t)\<close> equals
  the orb of \<open>(b, a, t)\<close>.
\<close>

theorem calculate_aspect_orb_symmetric:
  "calculate_aspect_orb a b t = calculate_aspect_orb b a t"
  by (simp add: calculate_aspect_orb_def abs_minus_commute)

theorem calculate_aspect_orb_symmetric_witness:
  "calculate_aspect_orb 350 20 30 = calculate_aspect_orb 20 350 30
   \<and> calculate_aspect_orb 20 350 30 = 0"
  using calculate_aspect_orb_symmetric [of 350 20 30]
  by (simp add: calculate_aspect_orb_def)

section \<open>The aspect matcher\<close>

lemma catalog_loop_eq:
  "find_aspects_catalog_loop p1 pos1 p2 pos2 max_orb cat aspects =
     aspects @ map (\<lambda>a. match_of ((p1, pos1), (p2, pos2), a))
                 (filter (\<lambda>a. qualifies max_orb pos1 pos2 (snd a)) cat)"
proof (induction cat arbitrary: aspects)
  case Nil
  show ?case by simp
next
  case (Cons a cat)
  obtain n d where a: "a = (n, d)" by (cases a)
  show ?case
    unfolding a using Cons.IH
    by (cases max_orb) (simp_all add: Let_def qualifies_def match_of_def not_less)
qed

lemma inner_loop_eq:
  "find_aspects_inner_loop p1 pos1 max_orb positions2 aspects =
     aspects @ map match_of
       (filter (\<lambda>t. case t of ((p1, pos1), (p2, pos2), (aspect_name, data)) \<Rightarrow>
                  qualifies max_orb pos1 pos2 data)
          (map (Pair (p1, pos1)) (List.product positions2 ASPECTS)))"
proof (induction positions2 arbitrary: aspects)
  case Nil
  show ?case by simp
next
  case (Cons e positions2)
  obtain p2 pos2 where e: "e = (p2, pos2)" by (cases e)
  show ?case
    unfolding e
    by (simp add: Cons.IH catalog_loop_eq filter_map o_def split_def)
qed

lemma outer_loop_eq:
  "find_aspects_outer_loop max_orb positions1 positions2 aspects =
     aspects @ spec_find_aspects positions1 positions2 max_orb"
proof (induction positions1 arbitrary: aspects)
  case Nil
  show ?case by (simp add: spec_find_aspects_def)
next
  case (Cons e positions1)
  obtain p1 pos1 where e: "e = (p1, pos1)" by (cases e)
  show ?case
    unfolding e
    by (simp add: Cons.IH inner_loop_eq spec_find_aspects_def)
qed

lemma find_aspects_eq_spec:
  "find_aspects positions1 positions2 max_orb = spec_find_aspects positions1 positions2 max_orb"
  by (simp add: find_aspects_def outer_loop_eq)

text \<open>
  C2. \<open>find_aspects\<close> iterates the cross product of the first set, the second set
  and the aspect catalog in exactly that nested order, and its output holds a
  match for a triple if and only if the orb of the two longitudes is at most the
  aspect's catalog orb and (\<open>max_orb\<close> is absent or the orb is at most \<open>max_orb\<close>);
  the output order is the iteration order. Stated as an equation: the output is
  the list of matches of the qualifying triples of the nested product, in the
  order of the product.
\<close>

theorem find_aspects_cross_product_order:
  "find_aspects positions1 positions2 max_orb =
     map match_of
       (filter (\<lambda>t. case t of ((p1, pos1), (p2, pos2), (aspect_name, data)) \<Rightarrow>
                  qualifies max_orb pos1 pos2 data)
          (List.product positions1 (List.product positions2 ASPECTS)))"
  using find_aspects_eq_spec [of positions1 positions2 max_orb]
  by (simp only: spec_find_aspects_def)

theorem find_aspects_cross_product_order_witness:
  "find_aspects [(''Sun'', at_longitude 10)] [(''Sun'', at_longitude 100)] None =
     [\<lparr>planet1 = ''Sun'', planet2 = ''Sun'', aspect = ''square'', orb = 0, exact_angle = 90,
       planet1_retrograde = False, planet2_retrograde = False\<rparr>]"
  using find_aspects_cross_product_order
          [of "[(''Sun'', at_longitude 10)]" "[(''Sun'', at_longitude 100)]" None]
  by (simp add: ASPECTS_def qualifies_def match_of_def calculate_aspect_orb_def
        at_longitude_def is_retrograde_def)

subsection \<open>The catalog windows are disjoint\<close>

lemma ASPECTS_keys_distinct: "distinct (map fst ASPECTS)"
  by (simp add: ASPECTS_def)

lemma window_generic:
  assumes "(n, d) \<in> set [(c1, \<lparr>angle = 0, allowed_orb = 8\<rparr>), (c2, \<lparr>angle = 180, allowed_orb = 8\<rparr>),
             (c3, \<lparr>angle = 120, allowed_orb = 8\<rparr>), (c4, \<lparr>angle = 90, allowed_orb = 8\<rparr>),
             (c5, \<lparr>angle = 60, allowed_orb = 6\<rparr>), (c6, \<lparr>angle = 150, allowed_orb = 3\<rparr>),
             (c7, \<lparr>angle = 30, allowed_orb = 3\<rparr>), (c8, \<lparr>angle = 45, allowed_orb = 2\<rparr>),
             (c9, \<lparr>angle = 135, allowed_orb = 2\<rparr>)]"
    and "\<bar>s - angle d\<bar> \<le> allowed_orb d"
  shows "n = (if s \<le> 8 then c1 else if s \<le> 33 then c7
              else if s \<le> 47 then c8 else if s \<le> 66 then c5
              else if s \<le> 98 then c4 else if s \<le> 128 then c3
              else if s \<le> 137 then c9 else if s \<le> 153 then c6
              else c2)"
  using assms by auto

lemma aspect_window_unique:
  assumes "(n, d) \<in> set ASPECTS" and "(n', d') \<in> set ASPECTS"
    and "\<bar>s - angle d\<bar> \<le> allowed_orb d" and "\<bar>s - angle d'\<bar> \<le> allowed_orb d'"
  shows "n = n'"
proof -
  note a = assms(1) [unfolded ASPECTS_def] and b = assms(2) [unfolded ASPECTS_def]
  show ?thesis
    using window_generic [OF a assms(3)] window_generic [OF b assms(4)] by (rule trans_sym)
qed

lemma qualifies_window:
  "qualifies max_orb pos1 pos2 d \<Longrightarrow>
     abs (min (abs (longitude pos1 - longitude pos2))
               (360 - abs (longitude pos1 - longitude pos2)) - angle d) \<le> allowed_orb d"
  by (simp add: qualifies_def calculate_aspect_orb_def Let_def)

lemma planets_of_match:
  "planet1 (match_of ((p1, pos1), (p2, pos2), (a, d))) = p1"
  "planet2 (match_of ((p1, pos1), (p2, pos2), (a, d))) = p2"
  by (simp_all add: match_of_def)

lemma find_aspects_pairs_distinct:
  assumes d1: "distinct (map fst positions1)" and d2: "distinct (map fst positions2)"
  shows "distinct (map (\<lambda>m. (planet1 m, planet2 m)) (find_aspects positions1 positions2 max_orb))"
proof -
  let ?Q = "\<lambda>t. case t of ((p1, pos1), (p2, pos2), (aspect_name, data)) \<Rightarrow>
                  qualifies max_orb pos1 pos2 data"
  let ?xs = "List.product positions1 (List.product positions2 ASPECTS)"
  let ?k = "\<lambda>t. (planet1 (match_of t), planet2 (match_of t))"
  have dA: "distinct ASPECTS" using ASPECTS_keys_distinct by (rule distinct_map [THEN iffD1, THEN conjunct1])
  have dp1: "distinct positions1" using d1 by (rule distinct_map [THEN iffD1, THEN conjunct1])
  have dp2: "distinct positions2" using d2 by (rule distinct_map [THEN iffD1, THEN conjunct1])
  have dx: "distinct ?xs" by (intro distinct_product dp1 dp2 dA)
  have inj: "inj_on ?k (set (filter ?Q ?xs))"
  proof (rule inj_onI)
    fix t t'
    assume t: "t \<in> set (filter ?Q ?xs)" and t': "t' \<in> set (filter ?Q ?xs)" and eq: "?k t = ?k t'"
    obtain p1 q1 p2 q2 a d where T: "t = ((p1, q1), (p2, q2), (a, d))"
      by (metis surj_pair)
    obtain p1' q1' p2' q2' a' d' where T': "t' = ((p1', q1'), (p2', q2'), (a', d'))"
      by (metis surj_pair)
    from t T have m1: "(p1, q1) \<in> set positions1" and m2: "(p2, q2) \<in> set positions2"
      and mA: "(a, d) \<in> set ASPECTS" and Q: "qualifies max_orb q1 q2 d" by simp_all
    from t' T' have m1': "(p1', q1') \<in> set positions1" and m2': "(p2', q2') \<in> set positions2"
      and mA': "(a', d') \<in> set ASPECTS" and Q': "qualifies max_orb q1' q2' d'" by simp_all
    from eq T T' have p: "p1 = p1'" "p2 = p2'" by (simp_all add: planets_of_match)
    have q1: "q1 = q1'" using d1 m1 m1' p(1) by (metis eq_key_imp_eq_value)
    have q2: "q2 = q2'" using d2 m2 m2' p(2) by (metis eq_key_imp_eq_value)
    have a: "a = a'"
      using aspect_window_unique [OF mA mA' qualifies_window [OF Q] qualifies_window [OF Q' [folded q1 q2]]] .
    have d: "d = d'" using ASPECTS_keys_distinct mA mA' a by (metis eq_key_imp_eq_value)
    show "t = t'" using T T' p q1 q2 a d by simp
  qed
  have "distinct (map ?k (filter ?Q ?xs))"
    using dx inj by (simp add: distinct_map)
  then show ?thesis
    by (simp add: find_aspects_eq_spec spec_find_aspects_def o_def)
qed

lemma distinct_map_filter_le1:
  "distinct (map f xs) \<Longrightarrow> length (filter (\<lambda>x. f x = k) xs) \<le> 1"
proof (induction xs)
  case Nil
  show ?case by simp
next
  case (Cons x xs)
  show ?case
  proof (cases "f x = k")
    case True
    with Cons.prems have "\<forall>y\<in>set xs. f y \<noteq> k" by (auto simp: image_iff)
    then have "filter (\<lambda>x. f x = k) xs = []" by (simp add: filter_empty_conv)
    with True show ?thesis by simp
  next
    case False
    with Cons show ?thesis by simp
  qed
qed

text \<open>
  C4 (as amended). \<open>find_aspects\<close> applies no deduplication and no closest-aspect
  filter, yet for inputs that are dictionaries (distinct body keys in each set)
  every (body1, body2) pair appears in at most one match of the output: the
  windows \<open>angle \<plusminus> orb\<close> of the nine catalog entries are pairwise disjoint, so
  one separation qualifies for at most one aspect.
\<close>

theorem find_aspects_pair_at_most_once:
  assumes "distinct (map fst positions1)" and "distinct (map fst positions2)"
  shows "length (filter (\<lambda>m. (planet1 m, planet2 m) = (body1, body2))
                  (find_aspects positions1 positions2 max_orb)) \<le> 1"
  using find_aspects_pairs_distinct [OF assms] by (rule distinct_map_filter_le1)

theorem find_aspects_pair_at_most_once_witness:
  "distinct (map fst [(''Sun'', at_longitude 10)]) \<and>
   distinct (map fst [(''Sun'', at_longitude 100)]) \<and>
   length (filter (\<lambda>m. (planet1 m, planet2 m) = (''Sun'', ''Sun''))
            (find_aspects [(''Sun'', at_longitude 10)] [(''Sun'', at_longitude 100)] None)) \<le> 1"
  using find_aspects_pair_at_most_once
          [of "[(''Sun'', at_longitude 10)]" "[(''Sun'', at_longitude 100)]" "''Sun''" "''Sun''" None]
  by simp

text \<open>
  C4 as the specification states it (some input makes the same (body1, body2)
  pair appear under two different aspect names) is false: no two dictionaries and
  no \<open>max_orb\<close> produce two matches with the same pair and different aspects.
\<close>

theorem find_aspects_never_two_aspects_for_a_pair:
  "\<not> (\<exists>positions1 positions2 max_orb m m'.
        distinct (map fst positions1) \<and> distinct (map fst positions2) \<and>
        m \<in> set (find_aspects positions1 positions2 max_orb) \<and>
        m' \<in> set (find_aspects positions1 positions2 max_orb) \<and>
        planet1 m = planet1 m' \<and> planet2 m = planet2 m' \<and> aspect m \<noteq> aspect m')"
proof
  assume "\<exists>positions1 positions2 max_orb m m'.
        distinct (map fst positions1) \<and> distinct (map fst positions2) \<and>
        m \<in> set (find_aspects positions1 positions2 max_orb) \<and>
        m' \<in> set (find_aspects positions1 positions2 max_orb) \<and>
        planet1 m = planet1 m' \<and> planet2 m = planet2 m' \<and> aspect m \<noteq> aspect m'"
  then obtain positions1 positions2 max_orb m m' where
    d: "distinct (map fst positions1)" "distinct (map fst positions2)"
    and m: "m \<in> set (find_aspects positions1 positions2 max_orb)"
    and m': "m' \<in> set (find_aspects positions1 positions2 max_orb)"
    and k: "planet1 m = planet1 m'" "planet2 m = planet2 m'" and ne: "aspect m \<noteq> aspect m'"
    by blast
  have "inj_on (\<lambda>m. (planet1 m, planet2 m)) (set (find_aspects positions1 positions2 max_orb))"
    using find_aspects_pairs_distinct [OF d, of max_orb] by (simp add: distinct_map)
  then have "m = m'" using m m' k by (auto dest: inj_onD)
  with ne show False by simp
qed

section \<open>The zodiac sign of a longitude\<close>

text \<open>
  C5 (as amended). For every longitude \<open>l\<close> in \<open>[0, 360)\<close>, \<open>get_zodiac_sign\<close>
  returns the sign at index \<open>floor(l/30)\<close> of the 12-sign catalog (which there is
  also \<open>floor(l/30) mod 12\<close>) together with the degree within the sign
  \<open>l - 30 * floor(l/30)\<close>, which lies in \<open>[0, 30)\<close>. The source takes the index
  \<open>int(l/30)\<close> as it is, without a reduction mod 12.
\<close>

theorem get_zodiac_sign_within_circle:
  assumes "0 \<le> l" and "l < 360"
  shows "get_zodiac_sign l = Inr (signs ! nat \<lfloor>l / 30\<rfloor>, l - 30 * of_int \<lfloor>l / 30\<rfloor>)
     \<and> nat \<lfloor>l / 30\<rfloor> = spec_sign_index l
     \<and> 0 \<le> l - 30 * of_int \<lfloor>l / 30\<rfloor> \<and> l - 30 * of_int \<lfloor>l / 30\<rfloor> < 30"
proof -
  have f0: "0 \<le> \<lfloor>l / 30\<rfloor>" using assms by simp
  have "l / 30 < 12" using assms by simp
  then have f12: "\<lfloor>l / 30\<rfloor> < 12" by (simp add: floor_less_iff)
  have len: "length signs = 12" by (simp add: signs_def)
  have get: "list_get signs \<lfloor>l / 30\<rfloor> = Inr (signs ! nat \<lfloor>l / 30\<rfloor>)"
    using f0 f12 by (simp add: list_get_def len)
  have "of_int \<lfloor>l / 30\<rfloor> \<le> l / 30" by (rule of_int_floor_le)
  then have lo: "0 \<le> l - 30 * of_int \<lfloor>l / 30\<rfloor>" by (simp add: field_simps)
  have "l / 30 < of_int \<lfloor>l / 30\<rfloor> + 1" by linarith
  then have hi: "l - 30 * of_int \<lfloor>l / 30\<rfloor> < 30" by (simp add: field_simps)
  have idx: "nat \<lfloor>l / 30\<rfloor> = spec_sign_index l"
    using f0 f12 by (simp add: spec_sign_index_def)
  have "get_zodiac_sign l = Inr (signs ! nat \<lfloor>l / 30\<rfloor>, l - 30 * of_int \<lfloor>l / 30\<rfloor>)"
    using assms(1) get
    by (simp add: get_zodiac_sign_def py_int_def py_fmod_def bind_err_def)
  with idx lo hi show ?thesis by simp
qed

theorem get_zodiac_sign_within_circle_witness:
  "(0::real) \<le> 95 \<and> (95::real) < 360 \<and> get_zodiac_sign 95 = Inr (''Cancer'', 5)
   \<and> spec_sign_index 95 = 3"
  using get_zodiac_sign_within_circle [of 95]
  by (simp add: signs_def spec_sign_index_def)

text \<open>
  C5 as the specification states it (for every longitude the sign is the one at
  index \<open>floor(longitude/30) mod 12\<close>) fails outside \<open>[0, 360)\<close>: at 360 the
  specification's index is 0 (Aries), and the source evaluates \<open>signs[12]\<close>, which
  raises \<^verbatim>\<open>IndexError\<close>.
\<close>

theorem get_zodiac_sign_360_raises:
  "get_zodiac_sign 360 = Inl IndexError \<and> spec_sign_index 360 = 0"
  by (simp add: get_zodiac_sign_def py_int_def py_fmod_def bind_err_def
        spec_sign_index_def list_get_def signs_def)

section \<open>The exact-aspect time solver\<close>

subsection \<open>The fine loop\<close>

lemma float_less_trans: "x < y \<Longrightarrow> float_less y bo \<Longrightarrow> float_less x bo"
  by (cases bo) simp_all

lemma float_less_not: "\<not> float_less y bo \<Longrightarrow> float_less x bo \<Longrightarrow> x < y"
  by (cases bo) simp_all

lemma fine_loop_exit:
  "fine_end < fine_start \<Longrightarrow> fine_loop sample fine_end fine_start bt bo = Inr bt"
  by (subst fine_loop.simps) simp

lemma fine_loop_step:
  assumes "fine_start \<le> fine_end" and "sample fine_start = Inr v"
    and "0 \<le> fine_start + minutes 1" and "fine_start + minutes 1 \<le> datetime_max"
  shows "fine_loop sample fine_end fine_start bt bo =
           fine_loop sample fine_end (fine_start + minutes 1)
             (if float_less v bo then Some fine_start else bt)
             (if float_less v bo then Float v else bo)"
  using assms by (subst fine_loop.simps) (simp add: datetime_add_def)

lemma fine_loop_error:
  assumes "fine_start \<le> fine_end" and "sample fine_start = Inl e"
  shows "fine_loop sample fine_end fine_start bt bo = Inl e"
  using assms by (subst fine_loop.simps) simp

lemma fine_loop_keeps_Some:
  "fine_loop sample fine_end fine_start (Some b) bo \<noteq> Inr None"
proof (induction sample fine_end fine_start "Some b :: datetime option" bo arbitrary: b
        rule: fine_loop.induct)
  case (1 sample fine_end fine_start best_orb)
  show ?case
  proof (cases "fine_start \<le> fine_end")
    case False
    then show ?thesis by (simp add: fine_loop_exit)
  next
    case le: True
    show ?thesis
    proof (cases "sample fine_start")
      case (Inl e)
      with le show ?thesis by (simp add: fine_loop_error)
    next
      case (Inr v)
      show ?thesis
      proof (cases "datetime_add fine_start (minutes 1)")
        case (Inl e)
        with le Inr show ?thesis by (subst fine_loop.simps) simp
      next
        case nx: (Inr next_start)
        show ?thesis
        proof (cases "float_less v best_orb")
          case True
          have "fine_loop sample fine_end next_start (Some fine_start) (Float v) \<noteq> Inr None"
            using "1.hyps"(1) [OF le Inr nx True] by simp
          with le Inr nx True show ?thesis by (subst fine_loop.simps) simp
        next
          case False
          have "fine_loop sample fine_end next_start (Some b) best_orb \<noteq> Inr None"
            using "1.hyps"(2) [OF le Inr nx False] by simp
          with le Inr nx False show ?thesis by (subst fine_loop.simps) simp
        qed
      qed
    qed
  qed
qed

lemma fine_loop_started_not_None:
  assumes "fine_start \<le> fine_end"
  shows "fine_loop sample fine_end fine_start None Inf \<noteq> Inr None"
proof (cases "sample fine_start")
  case (Inl e)
  with assms show ?thesis by (simp add: fine_loop_error)
next
  case (Inr v)
  show ?thesis
  proof (cases "datetime_add fine_start (minutes 1)")
    case (Inl e)
    with assms Inr show ?thesis by (subst fine_loop.simps) simp
  next
    case nx: (Inr next_start)
    with assms Inr show ?thesis
      by (subst fine_loop.simps) (simp add: fine_loop_keeps_Some)
  qed
qed

lemma fine_search_not_None: "fine_search sample t \<noteq> Inr None"
proof -
  have "t - hours 1 \<le> t + hours 1" by (simp add: hours_def)
  then show ?thesis
    by (auto simp: fine_search_def bind_err_def datetime_add_def fine_loop_started_not_None
          split: sum.splits if_splits)
qed

lemma fine_loop_scan:
  assumes "\<forall>j<m. sample (fs + int j * minutes 1) = Inr (f j)"
    and "0 \<le> fs" and "fs + int m * minutes 1 \<le> datetime_max"
  shows "\<exists>r. fine_loop sample (fs + int m * minutes 1 - minutes 1) fs bt bo = Inr r \<and>
           ((r = bt \<and> (\<forall>j<m. \<not> float_less (f j) bo)) \<or>
            (\<exists>j<m. r = Some (fs + int j * minutes 1) \<and> float_less (f j) bo \<and>
                    (\<forall>i<m. f j \<le> f i) \<and> (\<forall>i<j. f j < f i)))"
  using assms
proof (induction m arbitrary: fs f bt bo)
  case 0
  have "fs - minutes 1 < fs" by (simp add: minutes_def)
  then show ?case by (simp add: fine_loop_exit)
next
  case (Suc m)
  let ?fe = "fs + int (Suc m) * minutes 1 - minutes 1"
  let ?fs' = "fs + minutes 1"
  let ?bt' = "if float_less (f 0) bo then Some fs else bt"
  let ?bo' = "if float_less (f 0) bo then Float (f 0) else bo"
  have pos: "0 < minutes 1" by (simp add: minutes_def)
  have le: "fs \<le> ?fe" using pos by (simp add: algebra_simps)
  have s0: "sample fs = Inr (f 0)" using Suc.prems(1) by force
  have nx: "0 \<le> ?fs'" "?fs' \<le> datetime_max"
    using Suc.prems(2,3) by (simp_all add: minutes_def)
  have step: "fine_loop sample ?fe fs bt bo = fine_loop sample ?fe ?fs' ?bt' ?bo'"
    by (rule fine_loop_step [where sample = sample and fine_start = fs and v = "f 0",
          OF le s0 nx])
  have fe': "?fe = ?fs' + int m * minutes 1 - minutes 1" by (simp add: algebra_simps)
  have samples': "\<forall>j<m. sample (?fs' + int j * minutes 1) = Inr (f (Suc j))"
  proof (intro allI impI)
    fix j assume "j < m"
    then have "Suc j < Suc m" by simp
    with Suc.prems(1) have "sample (fs + int (Suc j) * minutes 1) = Inr (f (Suc j))"
      by blast
    then show "sample (?fs' + int j * minutes 1) = Inr (f (Suc j))"
      by (simp add: algebra_simps)
  qed
  have rng': "?fs' + int m * minutes 1 \<le> datetime_max"
    using Suc.prems(3) by (simp add: algebra_simps)
  obtain r where r: "fine_loop sample ?fe ?fs' ?bt' ?bo' = Inr r"
    and alt: "(r = ?bt' \<and> (\<forall>j<m. \<not> float_less (f (Suc j)) ?bo')) \<or>
              (\<exists>j<m. r = Some (?fs' + int j * minutes 1) \<and> float_less (f (Suc j)) ?bo' \<and>
                    (\<forall>i<m. f (Suc j) \<le> f (Suc i)) \<and> (\<forall>i<j. f (Suc j) < f (Suc i)))"
    using Suc.IH [OF samples' nx(1) rng', of ?bt' ?bo'] unfolding fe' by blast
  have res: "fine_loop sample ?fe fs bt bo = Inr r" using step r by simp
  have shift: "\<And>j. ?fs' + int j * minutes 1 = fs + int (Suc j) * minutes 1"
    by (simp add: algebra_simps)
  show ?case
  proof (cases "float_less (f 0) bo")
    case True
    from alt show ?thesis
    proof
      assume a: "r = ?bt' \<and> (\<forall>j<m. \<not> float_less (f (Suc j)) ?bo')"
      with True have r0: "r = Some (fs + int 0 * minutes 1)" by simp
      have "\<forall>i<Suc m. f 0 \<le> f i"
        using a True by (auto simp: less_Suc_eq_0_disj not_less)
      with res r0 True show ?thesis by (intro exI [of _ r]) (auto intro!: exI [of _ 0])
    next
      assume "\<exists>j<m. r = Some (?fs' + int j * minutes 1) \<and> float_less (f (Suc j)) ?bo' \<and>
                    (\<forall>i<m. f (Suc j) \<le> f (Suc i)) \<and> (\<forall>i<j. f (Suc j) < f (Suc i))"
      then obtain j where j: "j < m" "r = Some (fs + int (Suc j) * minutes 1)"
        "float_less (f (Suc j)) ?bo'" "\<forall>i<m. f (Suc j) \<le> f (Suc i)"
        "\<forall>i<j. f (Suc j) < f (Suc i)"
        unfolding shift by blast
      from j(3) True have lt0: "f (Suc j) < f 0" by simp
      have b: "float_less (f (Suc j)) bo" using lt0 True by (rule float_less_trans)
      have m1: "\<forall>i<Suc m. f (Suc j) \<le> f i"
        using j(4) lt0 by (auto simp: less_Suc_eq_0_disj)
      have m2: "\<forall>i<Suc j. f (Suc j) < f i"
        using j(5) lt0 by (auto simp: less_Suc_eq_0_disj)
      show ?thesis
        using res j(1,2) b m1 m2
        by (intro exI [of _ r] conjI disjI2 exI [of _ "Suc j"]) simp_all
    qed
  next
    case False
    from alt show ?thesis
    proof
      assume a: "r = ?bt' \<and> (\<forall>j<m. \<not> float_less (f (Suc j)) ?bo')"
      with False have "r = bt" and "\<forall>j<Suc m. \<not> float_less (f j) bo"
        by (auto simp: less_Suc_eq_0_disj)
      with res show ?thesis by blast
    next
      assume "\<exists>j<m. r = Some (?fs' + int j * minutes 1) \<and> float_less (f (Suc j)) ?bo' \<and>
                    (\<forall>i<m. f (Suc j) \<le> f (Suc i)) \<and> (\<forall>i<j. f (Suc j) < f (Suc i))"
      then obtain j where j: "j < m" "r = Some (fs + int (Suc j) * minutes 1)"
        "float_less (f (Suc j)) ?bo'" "\<forall>i<m. f (Suc j) \<le> f (Suc i)"
        "\<forall>i<j. f (Suc j) < f (Suc i)"
        unfolding shift by blast
      from j(3) False have b: "float_less (f (Suc j)) bo" by simp
      have lt0: "f (Suc j) < f 0" using False b by (rule float_less_not)
      have m1: "\<forall>i<Suc m. f (Suc j) \<le> f i"
        using j(4) lt0 by (auto simp: less_Suc_eq_0_disj)
      have m2: "\<forall>i<Suc j. f (Suc j) < f i"
        using j(5) lt0 by (auto simp: less_Suc_eq_0_disj)
      show ?thesis
        using res j(1,2) b m1 m2
        by (intro exI [of _ r] conjI disjI2 exI [of _ "Suc j"]) simp_all
    qed
  qed
qed

lemma fine_search_scan:
  assumes "hours 1 \<le> T" and "T + hours 1 + minutes 1 \<le> datetime_max"
    and "\<forall>j<121. sample (T - hours 1 + int j * minutes 1) = Inr (f j)"
  shows "\<exists>j<121. fine_search sample T = Inr (Some (T - hours 1 + int j * minutes 1)) \<and>
           (\<forall>i<121. f j \<le> f i) \<and> (\<forall>i<j. f j < f i)"
proof -
  have fs: "datetime_add T (- hours 1) = Inr (T - hours 1)"
    using assms(1,2) by (simp add: datetime_add_def hours_def minutes_def)
  have fe: "datetime_add T (hours 1) = Inr (T + hours 1)"
    using assms(1,2) by (simp add: datetime_add_def hours_def minutes_def)
  have eq: "fine_search sample T = fine_loop sample (T + hours 1) (T - hours 1) None Inf"
    by (simp add: fine_search_def bind_err_def fs fe)
  have fe': "T + hours 1 = T - hours 1 + int 121 * minutes 1 - minutes 1"
    by (simp add: hours_def minutes_def)
  have lo: "0 \<le> T - hours 1" using assms(1) by simp
  have hi: "T - hours 1 + int 121 * minutes 1 \<le> datetime_max"
    using assms(2) by (simp add: hours_def minutes_def)
  obtain r where r: "fine_loop sample (T + hours 1) (T - hours 1) None Inf = Inr r"
    and alt: "(r = None \<and> (\<forall>j<121. \<not> float_less (f j) Inf)) \<or>
            (\<exists>j<121. r = Some (T - hours 1 + int j * minutes 1) \<and> float_less (f j) Inf \<and>
                    (\<forall>i<121. f j \<le> f i) \<and> (\<forall>i<j. f j < f i))"
    using fine_loop_scan [OF assms(3) lo hi, of None Inf] unfolding fe' [symmetric] by blast
  have "(0::nat) < 121 \<and> float_less (f 0) Inf" by simp
  then have "\<not> (\<forall>j<(121::nat). \<not> float_less (f j) Inf)" by blast
  with alt obtain j where "j < 121" "r = Some (T - hours 1 + int j * minutes 1)"
    "\<forall>i<121. f j \<le> f i" "\<forall>i<j. f j < f i" by blast
  with eq r show ?thesis by auto
qed

subsection \<open>The coarse loop\<close>

lemma coarse_loop_exit:
  "end_time < current_time \<Longrightarrow> coarse_loop sample end_time current_time = Inr None"
  by (subst coarse_loop.simps) simp

lemma coarse_loop_error:
  "current_time \<le> end_time \<Longrightarrow> sample current_time = Inl x \<Longrightarrow>
     coarse_loop sample end_time current_time = Inl x"
  by (subst coarse_loop.simps) simp

lemma coarse_loop_trigger:
  "current_time \<le> end_time \<Longrightarrow> sample current_time = Inr v \<Longrightarrow> v < 1 / 10 \<Longrightarrow>
     coarse_loop sample end_time current_time = fine_search sample current_time"
  by (subst coarse_loop.simps) simp

lemma coarse_loop_next:
  "current_time \<le> end_time \<Longrightarrow> sample current_time = Inr v \<Longrightarrow> \<not> v < 1 / 10 \<Longrightarrow>
   0 \<le> current_time + hours 1 \<Longrightarrow> current_time + hours 1 \<le> datetime_max \<Longrightarrow>
     coarse_loop sample end_time current_time =
       coarse_loop sample end_time (current_time + hours 1)"
  by (subst coarse_loop.simps) (simp add: datetime_add_def)

lemma coarse_loop_skip:
  assumes "\<forall>i<k. \<exists>v. sample (c + int i * hours 1) = Inr v \<and> 1 / 10 \<le> v"
    and "0 \<le> c" and "c + int k * hours 1 \<le> e" and "e \<le> datetime_max"
  shows "coarse_loop sample e c = coarse_loop sample e (c + int k * hours 1)"
  using assms
proof (induction k arbitrary: c)
  case 0
  show ?case by simp
next
  case (Suc k)
  from Suc.prems(1) obtain v where v: "sample c = Inr v" "1 / 10 \<le> v" by force
  have c_le: "c \<le> e" and nx: "0 \<le> c + hours 1" "c + hours 1 \<le> datetime_max"
    using Suc.prems(2,3,4) by (simp_all add: hours_def)
  have step: "coarse_loop sample e c = coarse_loop sample e (c + hours 1)"
    using v(2) by (intro coarse_loop_next [where sample = sample and current_time = c and v = v]
                     c_le v(1) nx) simp
  have samples': "\<forall>i<k. \<exists>v. sample (c + hours 1 + int i * hours 1) = Inr v \<and> 1 / 10 \<le> v"
  proof (intro allI impI)
    fix i assume "i < k"
    then have "Suc i < Suc k" by simp
    with Suc.prems(1) have "\<exists>v. sample (c + int (Suc i) * hours 1) = Inr v \<and> 1 / 10 \<le> v"
      by blast
    then show "\<exists>v. sample (c + hours 1 + int i * hours 1) = Inr v \<and> 1 / 10 \<le> v"
      by (simp add: algebra_simps)
  qed
  have le': "c + hours 1 + int k * hours 1 \<le> e"
    using Suc.prems(3) by (simp add: algebra_simps)
  have "coarse_loop sample e (c + hours 1) = coarse_loop sample e (c + hours 1 + int k * hours 1)"
    by (rule Suc.IH [OF samples' nx(1) le' Suc.prems(4)])
  with step show ?case by (simp add: algebra_simps)
qed

lemma coarse_loop_None_iff:
  assumes "0 \<le> c" and "e + hours 1 \<le> datetime_max"
  shows "coarse_loop sample e c = Inr None \<longleftrightarrow>
           (\<forall>k::nat. c + int k * hours 1 \<le> e \<longrightarrow>
                (\<exists>v. sample (c + int k * hours 1) = Inr v \<and> 1 / 10 \<le> v))"
  using assms
proof (induction sample e c rule: coarse_loop.induct)
  case (1 sample e c)
  let ?P = "\<lambda>t. \<exists>v. sample t = Inr v \<and> 1 / 10 \<le> v"
  show ?case
  proof (cases "c \<le> e")
    case False
    have "\<And>k::nat. \<not> c + int k * hours 1 \<le> e"
      using False by (simp add: hours_def)
    with False show ?thesis by (simp add: coarse_loop_exit)
  next
    case le: True
    show ?thesis
    proof (cases "sample c")
      case (Inl x)
      have "\<not> ?P (c + int 0 * hours 1)" using Inl by simp
      moreover have "c + int 0 * hours 1 \<le> e" using le by simp
      ultimately have "\<not> (\<forall>k::nat. c + int k * hours 1 \<le> e \<longrightarrow> ?P (c + int k * hours 1))"
        by blast
      with le Inl show ?thesis by (simp add: coarse_loop_error)
    next
      case (Inr v)
      show ?thesis
      proof (cases "v < 1 / 10")
        case True
        have "\<not> ?P (c + int 0 * hours 1)" using Inr True by simp
        moreover have "c + int 0 * hours 1 \<le> e" using le by simp
        ultimately have "\<not> (\<forall>k::nat. c + int k * hours 1 \<le> e \<longrightarrow> ?P (c + int k * hours 1))"
          by blast
        with le Inr True show ?thesis
          by (simp add: coarse_loop_trigger fine_search_not_None)
      next
        case False
        have nx: "0 \<le> c + hours 1" "c + hours 1 \<le> datetime_max"
          using "1.prems" le by (simp_all add: hours_def)
        have add: "datetime_add c (hours 1) = Inr (c + hours 1)"
          using nx by (simp add: datetime_add_def)
        have step: "coarse_loop sample e c = coarse_loop sample e (c + hours 1)"
          by (rule coarse_loop_next [where sample = sample and current_time = c and v = v,
                OF le Inr False nx])
        have IH: "coarse_loop sample e (c + hours 1) = Inr None \<longleftrightarrow>
                    (\<forall>k::nat. c + hours 1 + int k * hours 1 \<le> e \<longrightarrow>
                       ?P (c + hours 1 + int k * hours 1))"
          by (rule "1.IH" [OF le Inr False add nx(1) "1.prems"(2)])
        have P0: "?P c" using Inr False by simp
        have "(\<forall>k::nat. c + int k * hours 1 \<le> e \<longrightarrow> ?P (c + int k * hours 1)) \<longleftrightarrow>
              (\<forall>k::nat. c + hours 1 + int k * hours 1 \<le> e \<longrightarrow> ?P (c + hours 1 + int k * hours 1))"
          (is "?L \<longleftrightarrow> ?R")
        proof
          assume L: ?L
          show ?R
          proof (intro allI impI)
            fix k :: nat
            assume "c + hours 1 + int k * hours 1 \<le> e"
            then have "c + int (Suc k) * hours 1 \<le> e" by (simp add: algebra_simps)
            with L have "?P (c + int (Suc k) * hours 1)" by blast
            then show "?P (c + hours 1 + int k * hours 1)" by (simp add: algebra_simps)
          qed
        next
          assume R: ?R
          show ?L
          proof (intro allI impI)
            fix k :: nat
            assume k: "c + int k * hours 1 \<le> e"
            show "?P (c + int k * hours 1)"
            proof (cases k)
              case 0
              with P0 show ?thesis by simp
            next
              case (Suc k')
              with k have "c + hours 1 + int k' * hours 1 \<le> e" by (simp add: algebra_simps)
              with R have "?P (c + hours 1 + int k' * hours 1)" by blast
              with Suc show ?thesis by (simp add: algebra_simps)
            qed
          qed
        qed
        with step IH show ?thesis by simp
      qed
    qed
  qed
qed

subsection \<open>The solver as a whole\<close>

lemma find_exact_aspect_time_coarse:
  "dict_get ASPECTS aspect_name = Inr data \<Longrightarrow>
     find_exact_aspect_time swe natal_positions start_time end_time pl1 pl2 aspect_name timezone =
       coarse_loop (orb_at swe natal_positions pl1 pl2 data timezone) end_time start_time"
  by (simp add: find_exact_aspect_time_def bind_err_def)


subsection \<open>The synthetic Provider on the minute grid of 0001-01-02\<close>

lemma hour_fraction: "real (j div 60) + real (j mod 60) / 60 = real j / 60"
proof -
  have "j div 60 * 60 + j mod 60 = j" by (rule div_mult_mod_eq)
  then have "real (j div 60 * 60 + j mod 60) = real j" by (rule arg_cong)
  then have e: "real (j div 60) * 60 + real (j mod 60) = real j"
    by (simp only: of_nat_add of_nat_mult of_nat_numeral)
  have "real (j div 60) + real (j mod 60) / 60 = (real (j div 60) * 60 + real (j mod 60)) / 60"
    by (simp only: add_divide_distrib nonzero_mult_div_cancel_right)
  also have "\<dots> = real j / 60" by (simp only: e)
  finally show ?thesis .
qed

lemma minute_grid_hour:
  assumes "j < 1440"
  shows "dt_hour (86400000000 + int j * minutes 1) = int (j div 60)"
proof -
  let ?t = "86400000000 + int j * minutes 1"
  have t: "?t = (24 * 60 + int j) * 60000000" by (simp add: minutes_def)
  have "?t div (60 * 60000000) = (24 * 60 + int j) div 60"
    unfolding t by (rule div_mult_mult2) simp
  also have "\<dots> = 24 + int j div 60" by (rule div_mult_self3) simp
  also have "int j div 60 = int (j div 60)" by (simp only: zdiv_int of_nat_numeral)
  finally have h: "?t div 3600000000 = 24 + int (j div 60)" by simp
  have "j < 24 * 60" using assms by simp
  then have lt: "j div 60 < 24" by (rule less_mult_imp_div_less)
  have "(24 + int (j div 60)) mod 24 = (1 * 24 + int (j div 60)) mod 24" by simp
  also have "\<dots> = int (j div 60) mod 24" by (rule mod_mult_self3)
  also have "\<dots> = int (j div 60)" using lt by (intro mod_pos_pos_trivial) simp_all
  finally show ?thesis by (simp only: dt_hour_def h)
qed

lemma minute_grid_minute:
  "dt_minute (86400000000 + int j * minutes 1) = int (j mod 60)"
proof -
  let ?t = "86400000000 + int j * minutes 1"
  have t: "?t = (24 * 60 + int j) * 60000000" by (simp add: minutes_def)
  have "?t div 60000000 = 24 * 60 + int j"
    unfolding t by (rule nonzero_mult_div_cancel_right) simp
  then have "dt_minute ?t = (24 * 60 + int j) mod 60" by (simp only: dt_minute_def)
  also have "\<dots> = int j mod 60" by (rule mod_mult_self3)
  also have "\<dots> = int (j mod 60)" by (simp only: zmod_int of_nat_numeral)
  finally show ?thesis .
qed

lemma minute_grid_ordinal:
  assumes "j < 1440"
  shows "toordinal (86400000000 + int j * minutes 1) = 2"
proof -
  let ?t = "86400000000 + int j * minutes 1"
  have t: "?t = (1440 + int j) * 60000000" by (simp add: minutes_def)
  have d: "\<And>n. ?t div (n * 60000000) = (1440 + int j) div n"
    unfolding t by (rule div_mult_mult2) simp
  have "?t div 86400000000 = (1440 + int j) div 1440" using d [of 1440] by simp
  also have "\<dots> = 1" using assms by simp
  finally show "toordinal ?t = 2" by (simp add: toordinal_def)
qed

lemma ord2ymd_2: "ord2ymd 2 = (1, 1, 2)"
  by (simp add: ord2ymd_def Let_def DAYS_BEFORE_MONTH_def DAYS_IN_MONTH_def)

lemma synthetic_julian_day:
  assumes "j < 1440"
  shows "compute_julian_day (synthetic_sky g) (86400000000 + int j * minutes 1) tz
           = Inr (2 + (real j / 60 - tz) / 24)"
proof -
  let ?t = "86400000000 + int j * minutes 1"
  have day: "dt_day ?t = 2" and year: "dt_year ?t = 1" and month: "dt_month ?t = 1"
    by (simp_all only: dt_day_def dt_year_def dt_month_def minute_grid_ordinal [OF assms]
          ord2ymd_2 fst_conv snd_conv)
  have jul: "swe_julday (synthetic_sky g) y m d h = Inr (real_of_int d + h / 24)" for y m d h
    by (simp add: synthetic_sky_def)
  have "compute_julian_day (synthetic_sky g) ?t tz
          = Inr (real_of_int 2 + (real (j div 60) - tz + real (j mod 60) / 60) / 24)"
    by (simp only: compute_julian_day_def Let_def day year month jul
          minute_grid_hour [OF assms] minute_grid_minute of_int_of_nat_eq)
  also have "real (j div 60) - tz + real (j mod 60) / 60 = real j / 60 - tz"
    using hour_fraction [of j] by linarith
  finally show ?thesis by simp
qed

lemma synthetic_positions_Sun:
  "\<exists>tp. calculate_planetary_positions (synthetic_sky g) jd = Inr tp \<and>
        dict_get tp ''Sun'' =
          Inr \<lparr>longitude = g jd, latitude = 0, distance = 1, longitude_speed = 0,
               latitude_speed = 0, distance_speed = 0, julian_day = Some jd\<rparr>"
  by (simp add: calculate_planetary_positions_def PLANETS_def synthetic_sky_def dict_get_def)

lemma synthetic_orb_at:
  assumes "j < 1440"
  shows "orb_at (synthetic_sky g) [(''Sun'', at_longitude l)] ''Sun'' ''Sun'' data 0
           (86400000000 + int j * minutes 1)
         = Inr (calculate_aspect_orb l (g (2 + real j / 1440)) (angle data))"
proof -
  obtain tp where tp: "calculate_planetary_positions (synthetic_sky g) (2 + real j / 1440) = Inr tp"
    "dict_get tp ''Sun'' =
          Inr \<lparr>longitude = g (2 + real j / 1440), latitude = 0, distance = 1, longitude_speed = 0,
               latitude_speed = 0, distance_speed = 0, julian_day = Some (2 + real j / 1440)\<rparr>"
    using synthetic_positions_Sun by blast
  have jd: "compute_julian_day (synthetic_sky g) (86400000000 + int j * minutes 1) 0
              = Inr (2 + real j / 1440)"
    using synthetic_julian_day [OF assms, of g 0] by simp
  have n: "dict_get [(''Sun'', at_longitude l)] ''Sun'' = Inr (at_longitude l)"
    by (simp add: dict_get_def)
  have l: "longitude (at_longitude l) = l" by (simp add: at_longitude_def)
  show ?thesis
    by (simp add: orb_at_def bind_err_def jd tp n l)
qed

lemma hour_grid:
  "86400000000 + int k * hours 1 = 86400000000 + int (60 * k) * minutes 1"
  by (simp add: hours_def minutes_def)

lemma conjunction_data:
  "dict_get ASPECTS ''conjunction'' = Inr \<lparr>angle = 0, allowed_orb = 8\<rparr>"
  by (simp add: dict_get_def ASPECTS_def)


subsection \<open>The absent result\<close>

text \<open>
  C3. \<open>find_exact_aspect_time\<close> returns the absent result \<open>None\<close> (a value, not an
  error) exactly when every coarse 1-hour sample from \<open>start_time\<close> through
  \<open>end_time\<close> has an orb of at least 0.1 degrees: the coarse phase reaches the end
  of the window without ever starting the fine phase. The aspect name is one of
  the catalog, \<open>start_time\<close> is a datetime, and \<open>end_time\<close> lies at least one hour
  before \<^verbatim>\<open>datetime.max\<close>, so that the last \<^verbatim>\<open>current_time += time_step\<close> is
  representable; a sample whose Provider call or dictionary lookup raises has no
  orb.
\<close>

theorem find_exact_aspect_time_absent_iff:
  assumes "dict_get ASPECTS aspect_name = Inr data"
    and "0 \<le> start_time" and "end_time + hours 1 \<le> datetime_max"
  shows "find_exact_aspect_time swe natal_positions start_time end_time pl1 pl2 aspect_name timezone
           = Inr None \<longleftrightarrow>
         (\<forall>k::nat. start_time + int k * hours 1 \<le> end_time \<longrightarrow>
            (\<exists>v. orb_at swe natal_positions pl1 pl2 data timezone (start_time + int k * hours 1)
                   = Inr v \<and> 1 / 10 \<le> v))"
  unfolding find_exact_aspect_time_coarse [OF assms(1)]
  by (rule coarse_loop_None_iff [OF assms(2,3)])


theorem find_exact_aspect_time_absent_iff_witness:
  "find_exact_aspect_time (synthetic_sky (\<lambda>jd. 100)) [(''Sun'', at_longitude 10)]
     86400000000 91800000000 ''Sun'' ''Sun'' ''conjunction'' 0 = Inr None"
proof -
  let ?sample = "orb_at (synthetic_sky (\<lambda>jd. 100)) [(''Sun'', at_longitude 10)] ''Sun'' ''Sun''
                   \<lparr>angle = 0, allowed_orb = 8\<rparr> 0"
  have all: "\<forall>k::nat. 86400000000 + int k * hours 1 \<le> 91800000000 \<longrightarrow>
               (\<exists>v. ?sample (86400000000 + int k * hours 1) = Inr v \<and> 1 / 10 \<le> v)"
  proof (intro allI impI)
    fix k :: nat
    assume "86400000000 + int k * hours 1 \<le> 91800000000"
    then have "60 * k < 1440" by (simp add: hours_def)
    then have "?sample (86400000000 + int (60 * k) * minutes 1)
                 = Inr (calculate_aspect_orb 10 100 (angle \<lparr>angle = 0, allowed_orb = 8\<rparr>))"
      by (rule synthetic_orb_at)
    also have "calculate_aspect_orb 10 100 (angle \<lparr>angle = 0, allowed_orb = 8\<rparr>) = 90"
      by (simp add: calculate_aspect_orb_def)
    finally show "\<exists>v. ?sample (86400000000 + int k * hours 1) = Inr v \<and> 1 / 10 \<le> v"
      unfolding hour_grid by simp
  qed
  have r: "(91800000000::int) + hours 1 \<le> datetime_max"
    by (simp add: hours_def datetime_max_def)
  show ?thesis
    using find_exact_aspect_time_absent_iff
            [OF conjunction_data, of 86400000000 91800000000
               "synthetic_sky (\<lambda>jd. 100)" "[(''Sun'', at_longitude 10)]" "''Sun''" "''Sun''" 0]
          all r
    by simp
qed

subsection \<open>The two phases\<close>

text \<open>
  C1. \<open>find_exact_aspect_time\<close> follows the two-phase structure. It steps from
  \<open>start_time\<close> toward \<open>end_time\<close> in 1-hour increments, computing the orb between
  the natal longitude of the first planet and the transiting longitude of the
  second for the angle of the aspect. At the first coarse step \<open>T\<close> whose orb is
  strictly below 0.1 degrees it scans \<open>T - 1h\<close> .. \<open>T + 1h\<close> at 1-minute resolution
  (121 samples) and returns a timestamp of that grid whose orb is the minimum of
  the window. Nothing is assumed of coarse steps after \<open>T\<close>: they are ignored.
  The samples of the run are taken to succeed (no Provider failure, no missing
  key), and the window and the step after it to be representable datetimes.
\<close>

theorem find_exact_aspect_time_two_phase:
  assumes "dict_get ASPECTS aspect_name = Inr data"
    and "0 \<le> start_time" and "end_time \<le> datetime_max"
    and "T = start_time + int k * hours 1" and "T \<le> end_time"
    and "\<forall>i<k. \<exists>v. orb_at swe natal_positions pa pb data timezone
                        (start_time + int i * hours 1) = Inr v \<and> 1 / 10 \<le> v"
    and "orb_at swe natal_positions pa pb data timezone T = Inr vT" and "vT < 1 / 10"
    and "hours 1 \<le> T" and "T + hours 1 + minutes 1 \<le> datetime_max"
    and "\<forall>j<121. orb_at swe natal_positions pa pb data timezone
                     (T - hours 1 + int j * minutes 1) = Inr (f j)"
  shows "\<exists>j<121.
           find_exact_aspect_time swe natal_positions start_time end_time pa pb aspect_name timezone
             = Inr (Some (T - hours 1 + int j * minutes 1)) \<and>
           (\<forall>i<121. f j \<le> f i)"
proof -
  let ?sample = "orb_at swe natal_positions pa pb data timezone"
  have "coarse_loop ?sample end_time start_time = coarse_loop ?sample end_time T"
    unfolding assms(4)
    by (rule coarse_loop_skip [OF assms(6) assms(2) assms(5) [unfolded assms(4)] assms(3)])
  also have "\<dots> = fine_search ?sample T"
    by (rule coarse_loop_trigger [where sample = ?sample and v = vT, OF assms(5) assms(7) assms(8)])
  finally have eq: "find_exact_aspect_time swe natal_positions start_time end_time pa pb
                      aspect_name timezone = fine_search ?sample T"
    by (simp add: find_exact_aspect_time_coarse [OF assms(1)])
  from fine_search_scan [where sample = ?sample and f = f, OF assms(9) assms(10) assms(11)]
  show ?thesis unfolding eq by blast
qed



lemma linear_orb:
  assumes "j < 121"
  shows "calculate_aspect_orb 10 (987 / 100 + 24 / 10 * (2 + real j / 1440 - 2)) 0
           = \<bar>13 / 100 - real j / 600\<bar>"
proof -
  let ?x = "987 / 100 + 24 / 10 * (2 + real j / 1440 - 2)"
  let ?d = "\<bar>13 / 100 - real j / 600\<bar>"
  have e: "10 - ?x = 13 / 100 - real j / 600" by (simp add: field_simps)
  have "real j < 121" using assms by simp
  then have "?d \<le> 180" by (simp add: abs_le_iff)
  then have m: "min ?d (360 - ?d) = ?d" by simp
  have "calculate_aspect_orb 10 ?x 0 = abs (min (abs (10 - ?x)) (360 - abs (10 - ?x)) - 0)"
    by (simp only: calculate_aspect_orb_def Let_def)
  also have "\<dots> = abs (min ?d (360 - ?d))" by (simp only: e diff_zero)
  also have "\<dots> = ?d" by (simp only: m abs_idempotent)
  finally show ?thesis .
qed


theorem find_exact_aspect_time_two_phase_witness:
  "find_exact_aspect_time (synthetic_sky (\<lambda>jd. 987 / 100 + 24 / 10 * (jd - 2)))
     [(''Sun'', at_longitude 10)] 86400000000 122400000000 ''Sun'' ''Sun'' ''conjunction'' 0
   = Inr (Some 91080000000)"
proof -
  let ?g = "\<lambda>jd::real. 987 / 100 + 24 / 10 * (jd - 2)"
  let ?sample = "orb_at (synthetic_sky ?g) [(''Sun'', at_longitude 10)] ''Sun'' ''Sun''
                   \<lparr>angle = 0, allowed_orb = 8\<rparr> 0"
  let ?f = "\<lambda>j::nat. \<bar>13 / 100 - real j / 600\<bar>"
  have grid: "?sample (86400000000 + int j * minutes 1) = Inr (?f j)" if "j < 121" for j
  proof -
    from that have "j < 1440" by simp
    then have "?sample (86400000000 + int j * minutes 1)
                 = Inr (calculate_aspect_orb 10 (?g (2 + real j / 1440))
                          (angle \<lparr>angle = 0, allowed_orb = 8\<rparr>))"
      by (rule synthetic_orb_at)
    also have "angle \<lparr>angle = 0, allowed_orb = 8\<rparr> = 0" by simp
    also have "calculate_aspect_orb 10 (?g (2 + real j / 1440)) 0 = ?f j"
      by (rule linear_orb [OF that])
    finally show ?thesis .
  qed
  have T: "(90000000000::int) = 86400000000 + int 1 * hours 1" by (simp add: hours_def)
  have s0: "(86400000000::int) + int 0 * hours 1 = 86400000000 + int 0 * minutes 1" by simp
  have T60: "(90000000000::int) = 86400000000 + int 60 * minutes 1" by (simp add: minutes_def)
  have T0: "(90000000000::int) - hours 1 = 86400000000" by (simp add: hours_def)
  have f0: "1 / 10 \<le> ?f 0" by simp
  have f60: "?f 60 < 1 / 10" by simp
  have before: "\<forall>i<1. \<exists>v. ?sample (86400000000 + int i * hours 1) = Inr v \<and> 1 / 10 \<le> v"
  proof (intro allI impI)
    fix i :: nat assume "i < 1"
    then have i: "i = 0" by simp
    have "?sample (86400000000 + int 0 * minutes 1) = Inr (?f 0)" by (rule grid) simp
    then have "?sample (86400000000 + int 0 * hours 1) = Inr (?f 0)" by (simp only: s0)
    with f0 show "\<exists>v. ?sample (86400000000 + int i * hours 1) = Inr v \<and> 1 / 10 \<le> v"
      unfolding i by blast
  qed
  have "?sample (86400000000 + int 60 * minutes 1) = Inr (?f 60)" by (rule grid) simp
  then have trig: "?sample 90000000000 = Inr (?f 60)" by (simp only: T60 [symmetric])
  have fine: "\<forall>j<121. ?sample (90000000000 - hours 1 + int j * minutes 1) = Inr (?f j)"
    unfolding T0 using grid by blast
  have rng: "hours 1 \<le> (90000000000::int)" "(90000000000::int) + hours 1 + minutes 1 \<le> datetime_max"
    "(122400000000::int) \<le> datetime_max" "(0::int) \<le> 86400000000"
    "(90000000000::int) \<le> 122400000000"
    by (simp_all add: hours_def minutes_def datetime_max_def)
  obtain j where j: "j < 121"
    and res: "find_exact_aspect_time (synthetic_sky ?g) [(''Sun'', at_longitude 10)]
                86400000000 122400000000 ''Sun'' ''Sun'' ''conjunction'' 0
              = Inr (Some (90000000000 - hours 1 + int j * minutes 1))"
    and least: "\<forall>i<121. ?f j \<le> ?f i"
    using find_exact_aspect_time_two_phase
            [where swe = "synthetic_sky ?g" and natal_positions = "[(''Sun'', at_longitude 10)]"
               and start_time = 86400000000 and end_time = 122400000000 and k = 1
               and T = 90000000000 and vT = "?f 60" and f = ?f and pa = "''Sun''"
               and pb = "''Sun''" and timezone = 0 and aspect_name = "''conjunction''",
             OF conjunction_data rng(4) rng(3) T rng(5) before trig f60 rng(1) rng(2) fine]
    by blast
  have "(78::nat) < 121 \<longrightarrow> ?f j \<le> ?f 78" using least by (rule spec)
  then have "?f j \<le> ?f 78" by simp
  moreover have "?f 78 = 0" by simp
  ultimately have "?f j \<le> 0" by (simp only:)
  then have "13 / 100 - real j / 600 = 0" by simp
  then have "real j = 78" by simp
  then have "j = 78" by simp
  with res show ?thesis by (simp add: hours_def minutes_def)
qed

text \<open>
  C10. Once the fine phase is triggered at coarse time \<open>T\<close>, the function never
  returns the absent result; and when the 121 one-minute samples of
  \<open>T - 1h\<close> .. \<open>T + 1h\<close> succeed and are representable, it returns a timestamp:
  the earliest one that attains the minimum orb of the window, since the running
  minimum is replaced only by a strictly smaller orb.
\<close>

theorem find_exact_aspect_time_triggered:
  assumes "dict_get ASPECTS aspect_name = Inr data"
    and "0 \<le> start_time" and "end_time \<le> datetime_max"
    and "T = start_time + int k * hours 1" and "T \<le> end_time"
    and "\<forall>i<k. \<exists>v. orb_at swe natal_positions pa pb data timezone
                        (start_time + int i * hours 1) = Inr v \<and> 1 / 10 \<le> v"
    and "orb_at swe natal_positions pa pb data timezone T = Inr vT" and "vT < 1 / 10"
  shows "find_exact_aspect_time swe natal_positions start_time end_time pa pb aspect_name timezone
           \<noteq> Inr None \<and>
         (hours 1 \<le> T \<and> T + hours 1 + minutes 1 \<le> datetime_max \<and>
          (\<forall>j<121. orb_at swe natal_positions pa pb data timezone
                     (T - hours 1 + int j * minutes 1) = Inr (f j)) \<longrightarrow>
          (\<exists>j<121.
             find_exact_aspect_time swe natal_positions start_time end_time pa pb aspect_name
               timezone = Inr (Some (T - hours 1 + int j * minutes 1)) \<and>
             (\<forall>i<121. f j \<le> f i) \<and> (\<forall>i<j. f j < f i)))"
proof -
  let ?sample = "orb_at swe natal_positions pa pb data timezone"
  have "coarse_loop ?sample end_time start_time = coarse_loop ?sample end_time T"
    unfolding assms(4)
    by (rule coarse_loop_skip [OF assms(6) assms(2) assms(5) [unfolded assms(4)] assms(3)])
  also have "\<dots> = fine_search ?sample T"
    by (rule coarse_loop_trigger [where sample = ?sample and v = vT, OF assms(5) assms(7) assms(8)])
  finally have eq: "find_exact_aspect_time swe natal_positions start_time end_time pa pb
                      aspect_name timezone = fine_search ?sample T"
    by (simp add: find_exact_aspect_time_coarse [OF assms(1)])
  have a: "fine_search ?sample T \<noteq> Inr None" by (rule fine_search_not_None)
  have b: "hours 1 \<le> T \<and> T + hours 1 + minutes 1 \<le> datetime_max \<and>
          (\<forall>j<121. ?sample (T - hours 1 + int j * minutes 1) = Inr (f j)) \<longrightarrow>
          (\<exists>j<121. fine_search ?sample T = Inr (Some (T - hours 1 + int j * minutes 1)) \<and>
             (\<forall>i<121. f j \<le> f i) \<and> (\<forall>i<j. f j < f i))"
    using fine_search_scan [where sample = ?sample and f = f and T = T] by blast
  show ?thesis unfolding eq using a b by (rule conjI)
qed


theorem find_exact_aspect_time_triggered_witness:
  "find_exact_aspect_time (synthetic_sky (\<lambda>jd. 201 / 20))
     [(''Sun'', at_longitude 10)] 90000000000 93600000000 ''Sun'' ''Sun'' ''conjunction'' 0
   = Inr (Some 86400000000)"
proof -
  let ?g = "\<lambda>jd::real. 201 / 20 :: real"
  let ?sample = "orb_at (synthetic_sky ?g) [(''Sun'', at_longitude 10)] ''Sun'' ''Sun''
                   \<lparr>angle = 0, allowed_orb = 8\<rparr> 0"
  let ?f = "\<lambda>j::nat. 1 / 20 :: real"
  have orb: "calculate_aspect_orb 10 (201 / 20) 0 = 1 / 20"
    by (simp add: calculate_aspect_orb_def)
  have grid: "?sample (86400000000 + int j * minutes 1) = Inr (1 / 20)" if "j < 121" for j
  proof -
    from that have "j < 1440" by simp
    then have "?sample (86400000000 + int j * minutes 1)
                 = Inr (calculate_aspect_orb 10 (?g (2 + real j / 1440))
                          (angle \<lparr>angle = 0, allowed_orb = 8\<rparr>))"
      by (rule synthetic_orb_at)
    also have "angle \<lparr>angle = 0, allowed_orb = 8\<rparr> = 0" by simp
    finally show ?thesis by (simp only: orb)
  qed
  have T: "(90000000000::int) = 90000000000 + int 0 * hours 1" by simp
  have T60: "(90000000000::int) = 86400000000 + int 60 * minutes 1" by (simp add: minutes_def)
  have T0: "(90000000000::int) - hours 1 = 86400000000" by (simp add: hours_def)
  have before: "\<forall>i<0. \<exists>v. ?sample (90000000000 + int i * hours 1) = Inr v \<and> 1 / 10 \<le> v"
    by simp
  have "?sample (86400000000 + int 60 * minutes 1) = Inr (1 / 20)" by (rule grid) simp
  then have trig: "?sample 90000000000 = Inr (1 / 20)" by (simp only: T60 [symmetric])
  have small: "(1 / 20 :: real) < 1 / 10" by simp
  have fine: "\<forall>j<121. ?sample (90000000000 - hours 1 + int j * minutes 1) = Inr (?f j)"
    unfolding T0 using grid by blast
  have rng: "hours 1 \<le> (90000000000::int)" "(90000000000::int) + hours 1 + minutes 1 \<le> datetime_max"
    "(93600000000::int) \<le> datetime_max" "(0::int) \<le> 90000000000"
    "(90000000000::int) \<le> 93600000000"
    by (simp_all add: hours_def minutes_def datetime_max_def)
  have "hours 1 \<le> (90000000000::int) \<and> (90000000000::int) + hours 1 + minutes 1 \<le> datetime_max \<and>
          (\<forall>j<121. ?sample (90000000000 - hours 1 + int j * minutes 1) = Inr (?f j)) \<longrightarrow>
          (\<exists>j<121.
             find_exact_aspect_time (synthetic_sky ?g) [(''Sun'', at_longitude 10)]
               90000000000 93600000000 ''Sun'' ''Sun'' ''conjunction'' 0
               = Inr (Some (90000000000 - hours 1 + int j * minutes 1)) \<and>
             (\<forall>i<121. ?f j \<le> ?f i) \<and> (\<forall>i<j. ?f j < ?f i))"
    using find_exact_aspect_time_triggered
            [where swe = "synthetic_sky ?g" and natal_positions = "[(''Sun'', at_longitude 10)]"
               and start_time = 90000000000 and end_time = 93600000000 and k = 0
               and T = 90000000000 and vT = "1 / 20" and f = ?f and pa = "''Sun''"
               and pb = "''Sun''" and timezone = 0 and aspect_name = "''conjunction''",
             OF conjunction_data rng(4) rng(3) T rng(5) before trig small]
    by (rule conjunct2)
  with rng(1,2) fine obtain j where j: "j < 121"
    and res: "find_exact_aspect_time (synthetic_sky ?g) [(''Sun'', at_longitude 10)]
                90000000000 93600000000 ''Sun'' ''Sun'' ''conjunction'' 0
              = Inr (Some (90000000000 - hours 1 + int j * minutes 1))"
    and first: "\<forall>i<j. ?f j < ?f i"
    by blast
  have "j = 0"
  proof (rule ccontr)
    assume "j \<noteq> 0"
    then have "0 < j" by simp
    with first have "?f j < ?f 0" by blast
    then show False by simp
  qed
  with res show ?thesis by (simp add: hours_def)
qed

end
